theory Spec2Isabelle
  imports Complex_Main "HOL-Library.AList"
begin

section \<open>Delay and probability discounting task: the titration core of task.js\<close>

text \<open>
  The script estimates, for each delay or probability level, the indifference point
  between an offered reward and the standard reward. This theory embeds the functions of
  \<^verbatim>\<open>task.js\<close> that carry that state: \<^verbatim>\<open>prepareSettings\<close>, \<^verbatim>\<open>getRewardValue\<close>,
  \<^verbatim>\<open>getStimulousString\<close>, \<^verbatim>\<open>updateParameters\<close>, the three trial callbacks and
  the two \<^verbatim>\<open>conditional_function\<close>s of the timeline.

  Conventions of the embedding:
  \<^item> a JavaScript number is a \<^typ>\<open>real\<close>: arithmetic is exact, where the script computes
    on IEEE doubles; counters that are only incremented from 0 are \<^typ>\<open>nat\<close>;
  \<^item> a draw of \<^verbatim>\<open>Math.random()\<close> is an explicit argument \<open>u\<close>, and the index chosen by
    \<^verbatim>\<open>jsPsych.randomization.sampleWithReplacement\<close> is an explicit argument \<open>pick\<close>;
  \<^item> \<^verbatim>\<open>undefined\<close> is \<open>None\<close>;
  \<^item> an object mutated in place is passed in and returned;
  \<^item> a thrown \<^verbatim>\<open>TypeError\<close> (a property read on \<^verbatim>\<open>undefined\<close>) is the value
    \<open>Inl TypeError\<close>;
  \<^item> the line written by \<^verbatim>\<open>console.log\<close> is returned as a list of diagnostics;
  \<^item> the object \<^verbatim>\<open>settings.parameters\<close> is an association list in insertion order,
    which is the order \<^verbatim>\<open>Object.keys\<close> and \<^verbatim>\<open>Object.values\<close> enumerate;
  \<^item> the trial object and the data record that the runner hands to the callbacks (the
    markup around the stimulus, \<^verbatim>\<open>post_trial_gap\<close>, \<^verbatim>\<open>saveData\<close>) are display and
    logging and are left out, as is the payoff trial.
\<close>

subsection \<open>Numbers and strings\<close>

text \<open>\<^verbatim>\<open>Math.round\<close>: the nearest integer, a tie going up.\<close>

definition Math_round :: "real \<Rightarrow> real" where
  "Math_round x = of_int \<lfloor>x + 1 / 2\<rfloor>"

text \<open>
  The decimal digits of a natural number, as the template literal \<^verbatim>\<open>`t${idx + 1}`\<close> and
  \<^verbatim>\<open>String(data.response)\<close> print it.
\<close>

definition digit :: "nat \<Rightarrow> char" where
  "digit d = ''0123456789'' ! d"

fun String_nat :: "nat \<Rightarrow> string" where
  "String_nat n = (if n < 10 then [digit n] else String_nat (n div 10) @ [digit (n mod 10)])"

declare String_nat.simps [simp del]

text \<open>
  \<^verbatim>\<open>data.response\<close> of the button plugin is the index of the pressed button, or
  \<^verbatim>\<open>null\<close>.
\<close>

definition String_response :: "nat option \<Rightarrow> string" where
  "String_response r = (case r of None \<Rightarrow> ''null'' | Some n \<Rightarrow> String_nat n)"

subsection \<open>Data\<close>

datatype trial_type = Temporal_delay | Probability_delay | Distractor

text \<open>
  \<^verbatim>\<open>getRewardValue\<close> reads only \<^verbatim>\<open>tmax\<close> and \<^verbatim>\<open>bmax\<close> of its argument, and the
  distractor calls it on the literal \<^verbatim>\<open>{ tmax: settings.standard, bmax: 0 }\<close>; these two
  fields are therefore the root of the record of trial parameters.
\<close>

record bounds =
  tmax :: real
  bmax :: real

text \<open>
  One entry of \<^verbatim>\<open>trialParameters\<close>. The entry \<^verbatim>\<open>d0\<close> of the script has only
  \<^verbatim>\<open>name\<close>, \<^verbatim>\<open>type\<close> and \<^verbatim>\<open>count\<close>; here its bracket fields are 0 and no
  function reads them. The per-trial counter \<^verbatim>\<open>count\<close> is named \<open>trial_count\<close>, as
  \<open>count\<close> is the counter of \<^verbatim>\<open>settings.variables\<close>.
\<close>

record parameters = bounds +
  name :: string
  type :: trial_type
  temporal_delay :: "real option"
  probability :: "real option"
  trial_count :: nat
  tmin :: real
  bmin :: real
  ip :: "real option"

text \<open>
  The stimulus text. The two templates of \<^verbatim>\<open>settings.stimuli\<close> are display text; a
  value records which template was filled and with which \<^verbatim>\<open>var\<close>, \<^verbatim>\<open>std\<close> and
  \<^verbatim>\<open>t\<close> or \<^verbatim>\<open>p\<close>. \<open>EmptyText\<close> is the initial \<^verbatim>\<open>''\<close>.
\<close>

datatype stimulus_text =
  EmptyText
  | TemporalDelayText real real "real option"
  | ProbabilityDelayText real real "real option"

record variables =
  count :: nat
  reword :: real
  stimulus :: "stimulus_text option"
  number_of_ips :: nat

record user_settings =
  posttrialDelay :: real
  distractorStart :: nat
  standard :: real
  step :: real
  maximumTrialCount :: nat

record settings = user_settings +
  variables :: variables
  threshold :: real
  parameters :: "(string \<times> parameters) list"

datatype error = TypeError

datatype diagnostic = InvalidResponse string

datatype trial_kind = Delaied_discounting_trial | Distractor_trial

subsection \<open>Settings\<close>

text \<open>
  \<^verbatim>\<open>getUserDefinedSettings\<close>, already split as \<^verbatim>\<open>prepareSettings\<close> destructures it:
  \<^verbatim>\<open>temporalDelays\<close>, \<^verbatim>\<open>probabilities\<close> and the rest.
\<close>

definition getUserDefinedSettings :: "real list \<times> real list \<times> user_settings" where
  "getUserDefinedSettings =
     ([0, 2, 30, 180, 365],
      [100, 90, 75, 50, 25],
      \<lparr>posttrialDelay = 500, distractorStart = 70, standard = 1000, step = 50,
       maximumTrialCount = 30\<rparr>)"

definition trialParameters :: "real list \<Rightarrow> real list \<Rightarrow> user_settings \<Rightarrow> parameters list" where
  "trialParameters temporalDelays probabilities userSettings =
     map (\<lambda>(idx, val).
            \<lparr>tmax = standard userSettings, bmax = 0,
             name = ''t'' @ String_nat (idx + 1), type = Temporal_delay,
             temporal_delay = Some val, probability = None, trial_count = 0,
             tmin = standard userSettings, bmin = 0, ip = None\<rparr>)
         (enumerate 0 temporalDelays)
     @ map (\<lambda>(idx, val).
            \<lparr>tmax = standard userSettings, bmax = 0,
             name = ''p'' @ String_nat (idx + 1), type = Probability_delay,
             temporal_delay = None, probability = Some val, trial_count = 0,
             tmin = standard userSettings, bmin = 0, ip = None\<rparr>)
         (enumerate 0 probabilities)
     @ [\<lparr>tmax = 0, bmax = 0, name = ''d0'', type = Distractor,
         temporal_delay = None, probability = None, trial_count = 0,
         tmin = 0, bmin = 0, ip = None\<rparr>]"

definition prepareSettings :: "real list \<times> real list \<times> user_settings \<Rightarrow> settings" where
  "prepareSettings user =
     (case user of (temporalDelays, probabilities, userSettings) \<Rightarrow>
        \<lparr>posttrialDelay = posttrialDelay userSettings,
         distractorStart = distractorStart userSettings,
         standard = standard userSettings,
         step = step userSettings,
         maximumTrialCount = maximumTrialCount userSettings,
         variables = \<lparr>count = 0, reword = 0, stimulus = Some EmptyText, number_of_ips = 0\<rparr>,
         threshold = step userSettings,
         parameters =
           foldl (\<lambda>parametersMap trial. AList.update (name trial) trial parametersMap) []
             (trialParameters temporalDelays probabilities userSettings)\<rparr>)"

subsection \<open>Reward sampler and stimulus\<close>

text \<open>
  \<^verbatim>\<open>getRewardValue\<close>. With \<^verbatim>\<open>step\<close> 0 the script divides by zero and yields
  \<^verbatim>\<open>NaN\<close>; the theorems about this function assume a nonzero step.
\<close>

definition getRewardValue :: "'a bounds_scheme \<Rightarrow> real \<Rightarrow> real \<Rightarrow> real" where
  "getRewardValue params stp u =
     (let tmx = tmax params / stp;
          bmx = bmax params / stp
      in Math_round (u * (tmx - bmx) + bmx) * stp)"

definition getStimulousString :: "settings \<Rightarrow> string \<Rightarrow> error + stimulus_text option" where
  "getStimulousString s trialName =
     (case map_of (parameters s) trialName of
        None \<Rightarrow> Inl TypeError
      | Some params \<Rightarrow>
          if type params = Temporal_delay then
            Inr (Some (TemporalDelayText (reword (variables s)) (standard s) (temporal_delay params)))
          else if type params = Probability_delay then
            Inr (Some (ProbabilityDelayText (reword (variables s)) (standard s) (probability params)))
          else Inr None)"

subsection \<open>The bracket updater\<close>

text \<open>
  \<^verbatim>\<open>updateParameters\<close>. The \<^verbatim>\<open>switch\<close> yields the updated object, or nothing where the
  \<^verbatim>\<open>default\<close> case logs and returns; the test on \<^verbatim>\<open>tmax - bmax\<close> follows the switch.
\<close>

definition updateParameters ::
  "string \<Rightarrow> real \<Rightarrow> parameters \<Rightarrow> real \<Rightarrow> real \<Rightarrow> parameters \<times> diagnostic list" where
  "updateParameters response rwd params stndrd thrshld =
     (case
        (if response = ''A'' then
           Some (if rwd < bmin params then params\<lparr>bmax := 0, bmin := rwd\<rparr>
                 else if rwd \<le> tmin params then params\<lparr>tmax := tmin params, tmin := rwd\<rparr>
                 else params\<lparr>tmax := rwd\<rparr>)
         else if response = ''B'' then
           Some (if tmin params < rwd then params\<lparr>tmax := stndrd, tmin := rwd\<rparr>
                 else if bmin params < rwd then params\<lparr>bmax := bmin params, bmin := rwd\<rparr>
                 else params\<lparr>bmax := rwd\<rparr>)
         else None)
      of
        None \<Rightarrow> (params, [InvalidResponse response])
      | Some params' \<Rightarrow>
          (if tmax params' - bmax params' \<le> thrshld then params'\<lparr>ip := Some rwd\<rparr> else params',
           []))"

subsection \<open>Callbacks of the trials\<close>

definition handleOnDelaiedDiscountingStart :: "settings \<Rightarrow> string \<Rightarrow> real \<Rightarrow> error + settings" where
  "handleOnDelaiedDiscountingStart s trialName u =
     (case map_of (parameters s) trialName of
        None \<Rightarrow> Inl TypeError
      | Some params \<Rightarrow>
          (let s1 = s\<lparr>variables := (variables s)\<lparr>count := count (variables s) + 1\<rparr>\<rparr>;
               params1 = params\<lparr>trial_count := trial_count params + 1\<rparr>;
               s2 = s1\<lparr>parameters := AList.update trialName params1 (parameters s1)\<rparr>;
               s3 = s2\<lparr>variables := (variables s2)\<lparr>reword := getRewardValue params1 (step s2) u\<rparr>\<rparr>
           in case getStimulousString s3 trialName of
                Inl e \<Rightarrow> Inl e
              | Inr text \<Rightarrow> Inr (s3\<lparr>variables := (variables s3)\<lparr>stimulus := text\<rparr>\<rparr>)))"

definition response_label :: "nat option \<Rightarrow> string" where
  "response_label r =
     (if r = Some 0 then ''A'' else if r = Some 1 then ''B'' else String_response r)"

definition handleOnDelaiedDiscountingFinish ::
  "settings \<Rightarrow> nat option \<Rightarrow> string \<Rightarrow> error + settings \<times> diagnostic list" where
  "handleOnDelaiedDiscountingFinish s data_response data_tiral_name =
     (case map_of (parameters s) data_tiral_name of
        None \<Rightarrow> Inl TypeError
      | Some params \<Rightarrow>
          (case updateParameters (response_label data_response) (reword (variables s)) params
                  (standard s) (threshold s) of
             (params', logged) \<Rightarrow>
               (let s1 = s\<lparr>parameters := AList.update data_tiral_name params' (parameters s)\<rparr>
                in Inr (if ip params' \<noteq> None
                        then s1\<lparr>variables :=
                                 (variables s1)\<lparr>number_of_ips := number_of_ips (variables s1) + 1\<rparr>\<rparr>
                        else s1,
                        logged))))"

definition handleOnDistractorStart ::
  "settings \<Rightarrow> string \<Rightarrow> nat \<Rightarrow> real \<Rightarrow> error + settings" where
  "handleOnDistractorStart s lastTrialName pick u =
     (case map_of (parameters s) lastTrialName of
        None \<Rightarrow> Inl TypeError
      | Some lastParams \<Rightarrow>
          (let trialType =
                 (if type lastParams = Temporal_delay then Probability_delay
                  else if type lastParams = Probability_delay then Temporal_delay
                  else type lastParams);
               candidates = filter (\<lambda>params. type params = trialType) (map snd (parameters s))
           in if candidates = [] then Inl TypeError
              else
                (let trialName = name (candidates ! (pick mod length candidates))
                 in case map_of (parameters s) ''d0'' of
                      None \<Rightarrow> Inl TypeError
                    | Some d0 \<Rightarrow>
                        (let s1 = s\<lparr>parameters :=
                                      AList.update ''d0'' (d0\<lparr>trial_count := trial_count d0 + 1\<rparr>)
                                        (parameters s)\<rparr>;
                             s2 = s1\<lparr>variables :=
                                       (variables s1)\<lparr>reword :=
                                          getRewardValue \<lparr>tmax = standard s1, bmax = 0\<rparr> (step s1) u\<rparr>\<rparr>
                         in case getStimulousString s2 trialName of
                              Inl e \<Rightarrow> Inl e
                            | Inr text \<Rightarrow>
                                Inr (s2\<lparr>variables := (variables s2)\<lparr>stimulus := text\<rparr>\<rparr>)))))"

subsection \<open>The timeline of one sequence entry\<close>

text \<open>
  \<^verbatim>\<open>doDelaiedDiscountingTask\<close> runs, for every entry of the trial sequence, the node
  \<^verbatim>\<open>skipIfIpDetermined(delaiedDiscountingTrial(), distractorTrial())\<close>. The runner
  evaluates a node's \<^verbatim>\<open>conditional_function\<close> when it reaches the node and skips the node
  when the function returns false.
\<close>

definition skipIfIpDetermined_conditional :: "settings \<Rightarrow> string \<Rightarrow> error + bool" where
  "skipIfIpDetermined_conditional s trialName =
     (case map_of (parameters s) trialName of
        None \<Rightarrow> Inl TypeError
      | Some params \<Rightarrow> Inr (ip params = None))"

definition distractorTrial_conditional :: "settings \<Rightarrow> bool" where
  "distractorTrial_conditional s = (distractorStart s \<le> count (variables s))"

definition run_entry ::
  "settings \<Rightarrow> string \<Rightarrow> real \<Rightarrow> nat option \<Rightarrow> nat \<Rightarrow> real
     \<Rightarrow> error + settings \<times> trial_kind list \<times> diagnostic list" where
  "run_entry s trialName u data_response pick u' =
     (case skipIfIpDetermined_conditional s trialName of
        Inl e \<Rightarrow> Inl e
      | Inr False \<Rightarrow> Inr (s, [], [])
      | Inr True \<Rightarrow>
          (case handleOnDelaiedDiscountingStart s trialName u of
             Inl e \<Rightarrow> Inl e
           | Inr s1 \<Rightarrow>
               (case handleOnDelaiedDiscountingFinish s1 data_response trialName of
                  Inl e \<Rightarrow> Inl e
                | Inr (s2, logged) \<Rightarrow>
                    if distractorTrial_conditional s2 then
                      (case handleOnDistractorStart s2 trialName pick u' of
                         Inl e \<Rightarrow> Inl e
                       | Inr s3 \<Rightarrow> Inr (s3, [Delaied_discounting_trial, Distractor_trial], logged))
                    else Inr (s2, [Delaied_discounting_trial], logged))))"

subsection \<open>The trial sequence\<close>

text \<open>
  \<^verbatim>\<open>prepareTrialSequence\<close>. An entry \<^verbatim>\<open>{tiral_name, settings}\<close> is its trial name, the
  settings object being the one shared object. The functions \<^verbatim>\<open>repeat\<close> and
  \<^verbatim>\<open>shuffleNoRepeats\<close> of \<^verbatim>\<open>jsPsych.randomization\<close> belong to the experiment library and
  are arguments here; the equality test handed to \<^verbatim>\<open>shuffleNoRepeats\<close> compares trial names.
\<close>

definition trialNames :: "settings \<Rightarrow> string list" where
  "trialNames s = filter (\<lambda>key. key \<noteq> ''d0'') (map fst (parameters s))"

definition prepareTrialSequence ::
  "(string list \<Rightarrow> nat \<Rightarrow> string list) \<Rightarrow>
   (string list \<Rightarrow> (string \<Rightarrow> string \<Rightarrow> bool) \<Rightarrow> string list) \<Rightarrow> settings \<Rightarrow> string list" where
  "prepareTrialSequence repeat shuffleNoRepeats s =
     (let trialInformations = trialNames s;
          repeatedArray = repeat trialInformations (maximumTrialCount s)
      in shuffleNoRepeats repeatedArray (\<lambda>a b. a = b))"

subsection \<open>Sequences of calls of the updater\<close>

text \<open>
  A call of \<^verbatim>\<open>updateParameters\<close> is the pair of its response and its offered reward.
  \<open>updates\<close> lists the states of one parameter object after each call of a sequence.
\<close>

fun updates :: "real \<Rightarrow> real \<Rightarrow> parameters \<Rightarrow> (string \<times> real) list \<Rightarrow> parameters list" where
  "updates stndrd thrshld params [] = []"
| "updates stndrd thrshld params ((response, rwd) # calls) =
     (let params' = fst (updateParameters response rwd params stndrd thrshld)
      in params' # updates stndrd thrshld params' calls)"

definition initialised :: "real \<Rightarrow> parameters \<Rightarrow> bool" where
  "initialised stndrd params \<longleftrightarrow>
     tmin params = stndrd \<and> tmax params = stndrd \<and> bmin params = 0 \<and> bmax params = 0"

definition ordered :: "parameters \<Rightarrow> bool" where
  "ordered params \<longleftrightarrow>
     bmax params \<le> bmin params \<and> bmin params \<le> tmin params \<and> tmin params \<le> tmax params"

definition valid_options :: "(string \<times> real) list \<Rightarrow> bool" where
  "valid_options calls = list_all (\<lambda>(response, rwd). response = ''A'' \<or> response = ''B'') calls"

definition offers_between :: "real \<Rightarrow> real \<Rightarrow> (string \<times> real) list \<Rightarrow> bool" where
  "offers_between lo hi calls = list_all (\<lambda>(response, rwd). lo \<le> rwd \<and> rwd \<le> hi) calls"

text \<open>Every offer lies in the bracket \<open>[bmax, tmax]\<close> that the object has when the call is made.\<close>

fun offers_in_bracket :: "real \<Rightarrow> real \<Rightarrow> parameters \<Rightarrow> (string \<times> real) list \<Rightarrow> bool" where
  "offers_in_bracket stndrd thrshld params [] = True"
| "offers_in_bracket stndrd thrshld params ((response, rwd) # calls) =
     (bmax params \<le> rwd \<and> rwd \<le> tmax params \<and>
      offers_in_bracket stndrd thrshld
        (fst (updateParameters response rwd params stndrd thrshld)) calls)"

text \<open>
  A subject for whom the standard option is worth \<open>v\<close> and who never picks the option of
  smaller worth: the offer is chosen only when it is at least \<open>v\<close>, the standard only when
  the offer is at most \<open>v\<close>.
\<close>

definition consistent_policy :: "real \<Rightarrow> (string \<times> real) list \<Rightarrow> bool" where
  "consistent_policy v calls =
     list_all (\<lambda>(response, rwd). (response = ''A'' \<longrightarrow> v \<le> rwd) \<and> (response = ''B'' \<longrightarrow> rwd \<le> v)) calls"

text \<open>
  A subject who picks the option of larger worth, and answers \<open>tie\<close> when the offer is
  worth exactly \<open>v\<close>.
\<close>

definition policy :: "real \<Rightarrow> string \<Rightarrow> real \<Rightarrow> string" where
  "policy v tie rwd = (if v < rwd then ''A'' else if rwd < v then ''B'' else tie)"

text \<open>
  The calls of a titration of one parameter object: each offer is drawn by
  \<^verbatim>\<open>getRewardValue\<close> from the object as it then is (\<^verbatim>\<open>handleOnDelaiedDiscountingStart\<close>),
  the subject answers, and \<^verbatim>\<open>updateParameters\<close> is applied
  (\<^verbatim>\<open>handleOnDelaiedDiscountingFinish\<close>).
\<close>

fun sampled_calls ::
  "real \<Rightarrow> real \<Rightarrow> real \<Rightarrow> (real \<Rightarrow> string) \<Rightarrow> parameters \<Rightarrow> real list \<Rightarrow> (string \<times> real) list" where
  "sampled_calls stndrd thrshld stp answer params [] = []"
| "sampled_calls stndrd thrshld stp answer params (u # us) =
     (let rwd = getRewardValue params stp u;
          response = answer rwd
      in (response, rwd) #
         sampled_calls stndrd thrshld stp answer
           (fst (updateParameters response rwd params stndrd thrshld)) us)"

definition width :: "parameters \<Rightarrow> real" where
  "width params = tmax params - bmax params"

fun nonincreasing :: "real list \<Rightarrow> bool" where
  "nonincreasing (x # y # zs) = (y \<le> x \<and> nonincreasing (y # zs))"
| "nonincreasing zs = True"

definition multiple_of :: "real \<Rightarrow> real \<Rightarrow> bool" where
  "multiple_of stp x \<longleftrightarrow> of_int \<lfloor>x / stp\<rfloor> * stp = x"

text \<open>The bracket fields of a parameter object, and its indifference point.\<close>

definition bracket_state :: "parameters \<Rightarrow> real \<times> real \<times> real \<times> real \<times> real option" where
  "bracket_state params = (tmin params, tmax params, bmin params, bmax params, ip params)"

subsection \<open>Invariants used in the proofs\<close>

definition bracket_inv :: "real \<Rightarrow> parameters \<Rightarrow> bool" where
  "bracket_inv stndrd params \<longleftrightarrow> 0 \<le> bmax params \<and> ordered params \<and> tmax params \<le> stndrd"

definition upper_inv :: "real \<Rightarrow> parameters \<Rightarrow> bool" where
  "upper_inv stndrd params \<longleftrightarrow> tmin params \<le> tmax params \<and> tmax params \<le> stndrd"

definition policy_inv :: "real \<Rightarrow> real \<Rightarrow> parameters \<Rightarrow> bool" where
  "policy_inv stndrd v params \<longleftrightarrow>
     0 \<le> bmax params \<and> bmax params \<le> bmin params \<and> bmin params \<le> max 0 v \<and>
     min stndrd v \<le> tmin params \<and> tmin params \<le> tmax params \<and> tmax params \<le> stndrd"

definition multiples_inv :: "real \<Rightarrow> parameters \<Rightarrow> bool" where
  "multiples_inv stp params \<longleftrightarrow>
     multiple_of stp (tmax params) \<and> multiple_of stp (tmin params) \<and>
     multiple_of stp (bmin params) \<and> multiple_of stp (bmax params)"

subsection \<open>Inputs of the examples\<close>

text \<open>The entry \<^verbatim>\<open>t1\<close> that \<^verbatim>\<open>prepareSettings\<close> creates for a standard amount.\<close>

definition fresh_t1 :: "real \<Rightarrow> parameters" where
  "fresh_t1 stndrd =
     \<lparr>tmax = stndrd, bmax = 0, name = ''t1'', type = Temporal_delay,
      temporal_delay = Some 0, probability = None, trial_count = 0,
      tmin = stndrd, bmin = 0, ip = None\<rparr>"

text \<open>
  The settings that \<^verbatim>\<open>prepareSettings\<close> creates from the shipped configuration, with the
  session counter \<^verbatim>\<open>settings.variables.count\<close> at \<open>n\<close>.
\<close>

definition default_settings_at :: "nat \<Rightarrow> settings" where
  "default_settings_at n =
     (prepareSettings getUserDefinedSettings)
       \<lparr>variables := \<lparr>count = n, reword = 0, stimulus = Some EmptyText, number_of_ips = 0\<rparr>\<rparr>"

section \<open>Properties\<close>

subsection \<open>Evaluation of the settings\<close>

lemma String_nat_digit: "n < 10 \<Longrightarrow> String_nat n = [digit n]"
  by (simp add: String_nat.simps)

lemma prepareSettings_t1:
  "map_of (parameters (prepareSettings getUserDefinedSettings)) ''t1'' = Some (fresh_t1 1000)"
  by (simp add: prepareSettings_def getUserDefinedSettings_def trialParameters_def
      enumerate_eq_zip upt_rec String_nat_digit digit_def fresh_t1_def)

lemma prepareSettings_keys:
  "map fst (parameters (prepareSettings getUserDefinedSettings)) =
     [''t1'', ''t2'', ''t3'', ''t4'', ''t5'', ''p1'', ''p2'', ''p3'', ''p4'', ''p5'', ''d0'']"
  by (simp add: prepareSettings_def getUserDefinedSettings_def trialParameters_def
      enumerate_eq_zip upt_rec String_nat_digit digit_def)

subsection \<open>The branches of the updater\<close>

text \<open>
  C1. On response A: if the offer is below \<open>bmin\<close> then \<open>bmax\<close> becomes 0 and \<open>bmin\<close> the
  offer; otherwise if the offer is at most \<open>tmin\<close> then \<open>tmax\<close> becomes \<open>tmin\<close> and \<open>tmin\<close>
  the offer; otherwise \<open>tmax\<close> becomes the offer. On response B: if \<open>tmin\<close> is below the
  offer then \<open>tmax\<close> becomes the standard amount and \<open>tmin\<close> the offer; otherwise if
  \<open>bmin\<close> is below the offer then \<open>bmax\<close> becomes \<open>bmin\<close> and \<open>bmin\<close> the offer;
  otherwise \<open>bmax\<close> becomes the offer. In each branch the other bracket fields keep their
  values.
\<close>

theorem updateParameters_branches:
  assumes "qa = fst (updateParameters ''A'' rwd params stndrd thrshld)"
    and "qb = fst (updateParameters ''B'' rwd params stndrd thrshld)"
  shows
  "(rwd < bmin params \<longrightarrow>
      bmax qa = 0 \<and> bmin qa = rwd \<and> tmin qa = tmin params \<and> tmax qa = tmax params) \<and>
   (\<not> rwd < bmin params \<and> rwd \<le> tmin params \<longrightarrow>
      tmax qa = tmin params \<and> tmin qa = rwd \<and> bmin qa = bmin params \<and> bmax qa = bmax params) \<and>
   (\<not> rwd < bmin params \<and> \<not> rwd \<le> tmin params \<longrightarrow>
      tmax qa = rwd \<and> tmin qa = tmin params \<and> bmin qa = bmin params \<and> bmax qa = bmax params) \<and>
   (tmin params < rwd \<longrightarrow>
      tmax qb = stndrd \<and> tmin qb = rwd \<and> bmin qb = bmin params \<and> bmax qb = bmax params) \<and>
   (\<not> tmin params < rwd \<and> bmin params < rwd \<longrightarrow>
      bmax qb = bmin params \<and> bmin qb = rwd \<and> tmin qb = tmin params \<and> tmax qb = tmax params) \<and>
   (\<not> tmin params < rwd \<and> \<not> bmin params < rwd \<longrightarrow>
      bmax qb = rwd \<and> bmin qb = bmin params \<and> tmin qb = tmin params \<and> tmax qb = tmax params)"
  unfolding assms updateParameters_def by simp

theorem updateParameters_branches_witness:
  "bracket_state (fst (updateParameters ''A'' 300 ((fresh_t1 1000)\<lparr>bmin := 400\<rparr>) 1000 50))
     = (1000, 1000, 300, 0, None) \<and>
   bracket_state (fst (updateParameters ''A'' 600 (fresh_t1 1000) 1000 50))
     = (600, 1000, 0, 0, None) \<and>
   bracket_state (fst (updateParameters ''A'' 800 ((fresh_t1 1000)\<lparr>tmin := 600\<rparr>) 1000 50))
     = (600, 800, 0, 0, None) \<and>
   bracket_state (fst (updateParameters ''B'' 800 ((fresh_t1 1000)\<lparr>tmax := 900, tmin := 600\<rparr>) 1000 50))
     = (800, 1000, 0, 0, None) \<and>
   bracket_state (fst (updateParameters ''B'' 550 (fresh_t1 1000) 1000 50))
     = (1000, 1000, 550, 0, None) \<and>
   bracket_state (fst (updateParameters ''B'' 300 ((fresh_t1 1000)\<lparr>bmin := 400\<rparr>) 1000 50))
     = (1000, 1000, 400, 300, None)"
  using updateParameters_branches [OF refl refl, of 300 "(fresh_t1 1000)\<lparr>bmin := 400\<rparr>" 1000 50]
    updateParameters_branches [OF refl refl, of 600 "fresh_t1 1000" 1000 50]
    updateParameters_branches [OF refl refl, of 800 "(fresh_t1 1000)\<lparr>tmin := 600\<rparr>" 1000 50]
    updateParameters_branches [OF refl refl, of 800 "(fresh_t1 1000)\<lparr>tmax := 900, tmin := 600\<rparr>" 1000 50]
    updateParameters_branches [OF refl refl, of 550 "fresh_t1 1000" 1000 50]
  by (simp add: bracket_state_def fresh_t1_def updateParameters_def)

subsection \<open>The indifference point\<close>

text \<open>
  C3. After a call with response A or B, whichever branch fired: if \<open>tmax - bmax\<close> of the
  updated object is at most the threshold, \<open>ip\<close> is the offered reward; otherwise \<open>ip\<close>
  keeps the value it had. So an \<open>ip\<close> that was unset becomes the offered reward exactly when
  \<open>tmax - bmax\<close> is at most the threshold. The threshold of the settings is the configured
  step.
\<close>

theorem updateParameters_ip:
  assumes "response = ''A'' \<or> response = ''B''"
    and "q = fst (updateParameters response rwd params stndrd thrshld)"
  shows "(tmax q - bmax q \<le> thrshld \<longrightarrow> ip q = Some rwd) \<and>
         (\<not> tmax q - bmax q \<le> thrshld \<longrightarrow> ip q = ip params) \<and>
         (ip params = None \<longrightarrow> (ip q = Some rwd \<longleftrightarrow> tmax q - bmax q \<le> thrshld)) \<and>
         threshold (prepareSettings (temporalDelays, probabilities, userSettings)) = step userSettings"
  using assms unfolding updateParameters_def prepareSettings_def by auto

theorem updateParameters_ip_witness:
  "ip (fst (updateParameters ''B'' 1000 ((fresh_t1 1000)\<lparr>bmin := 950\<rparr>) 1000 50)) = Some 1000 \<and>
   ip (fst (updateParameters ''B'' 550 (fresh_t1 1000) 1000 50)) = None \<and>
   threshold (prepareSettings getUserDefinedSettings) = 50"
  using updateParameters_ip [OF _ refl, of "''B''" 1000 "(fresh_t1 1000)\<lparr>bmin := 950\<rparr>" 1000 50
      "[0, 2, 30, 180, 365]" "[100, 90, 75, 50, 25]"
      "\<lparr>posttrialDelay = 500, distractorStart = 70, standard = 1000, step = 50,
        maximumTrialCount = 30\<rparr>"]
    updateParameters_ip [OF _ refl, of "''B''" 550 "fresh_t1 1000" 1000 50]
  by (simp add: fresh_t1_def updateParameters_def getUserDefinedSettings_def)

subsection \<open>Invalid responses\<close>

text \<open>
  C6. For a response that is neither A nor B, \<^verbatim>\<open>updateParameters\<close> returns the parameter
  object as it received it (no bracket field changes, \<open>ip\<close> is not set, the test on
  \<open>tmax - bmax\<close> is not reached) and logs a diagnostic naming the response.
\<close>

theorem updateParameters_invalid_response:
  assumes "response \<noteq> ''A''" and "response \<noteq> ''B''"
  shows "updateParameters response rwd params stndrd thrshld = (params, [InvalidResponse response])"
  using assms by (simp add: updateParameters_def)

theorem updateParameters_invalid_response_witness:
  "''null'' \<noteq> ''A'' \<and> ''null'' \<noteq> ''B'' \<and>
   updateParameters ''null'' 1000 ((fresh_t1 1000)\<lparr>bmin := 950\<rparr>) 1000 50
     = ((fresh_t1 1000)\<lparr>bmin := 950\<rparr>, [InvalidResponse ''null''])"
  using updateParameters_invalid_response [of "''null''" 1000 "(fresh_t1 1000)\<lparr>bmin := 950\<rparr>" 1000 50]
  by simp

subsection \<open>The ordering of the bracket\<close>

lemma bracket_inv_step:
  assumes "bracket_inv stndrd params" "response = ''A'' \<or> response = ''B''"
    "0 \<le> rwd" "rwd \<le> stndrd"
  shows "bracket_inv stndrd (fst (updateParameters response rwd params stndrd thrshld))"
  using assms unfolding bracket_inv_def ordered_def updateParameters_def by auto

lemma bracket_inv_updates:
  assumes "bracket_inv stndrd params" "valid_options calls" "offers_between 0 stndrd calls"
  shows "\<forall>q \<in> set (updates stndrd thrshld params calls). bracket_inv stndrd q"
  using assms
proof (induction calls arbitrary: params)
  case Nil
  then show ?case by simp
next
  case (Cons c calls)
  obtain response rwd where c: "c = (response, rwd)" by (cases c)
  let ?q = "fst (updateParameters response rwd params stndrd thrshld)"
  from Cons.prems c have "bracket_inv stndrd ?q"
    by (intro bracket_inv_step) (simp_all add: valid_options_def offers_between_def)
  moreover from Cons.prems c have "valid_options calls" "offers_between 0 stndrd calls"
    by (simp_all add: valid_options_def offers_between_def)
  ultimately show ?case using Cons.IH [of ?q] c by (simp add: Let_def)
qed

lemma offers_in_bracket_between:
  assumes "bracket_inv stndrd params" "valid_options calls"
    "offers_in_bracket stndrd thrshld params calls"
  shows "offers_between 0 stndrd calls"
  using assms
proof (induction calls arbitrary: params)
  case Nil
  then show ?case by (simp add: offers_between_def)
next
  case (Cons c calls)
  obtain response rwd where c: "c = (response, rwd)" by (cases c)
  let ?q = "fst (updateParameters response rwd params stndrd thrshld)"
  from Cons.prems c have r: "0 \<le> rwd" "rwd \<le> stndrd"
    by (simp_all add: bracket_inv_def ordered_def)
  with Cons.prems c have "bracket_inv stndrd ?q"
    by (intro bracket_inv_step) (simp_all add: valid_options_def)
  moreover from Cons.prems c have "valid_options calls"
    "offers_in_bracket stndrd thrshld ?q calls"
    by (simp_all add: valid_options_def)
  ultimately have "offers_between 0 stndrd calls" by (rule Cons.IH)
  with r c show ?case by (simp add: offers_between_def)
qed

text \<open>
  C2, as the claim states it, fails: the offer is an argument of \<^verbatim>\<open>updateParameters\<close>, which
  does not check it. On a fresh object with standard amount 1000, the call with response B
  and offer 1050 leaves \<open>tmin = 1050\<close> above \<open>tmax = 1000\<close>, and the call with response A
  and offer -50 leaves \<open>bmin = -50\<close> below \<open>bmax = 0\<close>. A fresh object with a negative
  standard amount has \<open>tmin\<close> below \<open>bmin\<close> before any call.
\<close>

theorem ordering_counterexample:
  "initialised 1000 (fresh_t1 1000) \<and> valid_options [(''B'', 1050)] \<and>
   bracket_state (last (updates 1000 50 (fresh_t1 1000) [(''B'', 1050)]))
     = (1050, 1000, 0, 0, None) \<and>
   \<not> ordered (last (updates 1000 50 (fresh_t1 1000) [(''B'', 1050)])) \<and>
   valid_options [(''A'', - 50)] \<and>
   bracket_state (last (updates 1000 50 (fresh_t1 1000) [(''A'', - 50)]))
     = (1000, 1000, - 50, 0, None) \<and>
   \<not> ordered (last (updates 1000 50 (fresh_t1 1000) [(''A'', - 50)])) \<and>
   initialised (- 50) (fresh_t1 (- 50)) \<and> \<not> ordered (fresh_t1 (- 50))"
  by (simp add: initialised_def valid_options_def ordered_def bracket_state_def fresh_t1_def
      updateParameters_def)

text \<open>
  C2, amended. For a standard amount that is not negative and a parameter object initialised
  with \<open>tmin = tmax = standard\<close> and \<open>bmin = bmax = 0\<close>: after any sequence of calls whose
  responses are A or B and whose offers lie between 0 and the standard amount, and before the
  first call, \<open>bmax \<le> bmin \<le> tmin \<le> tmax\<close> holds.
\<close>

theorem ordering_invariant:
  assumes "0 \<le> stndrd" "initialised stndrd params" "valid_options calls"
    "offers_between 0 stndrd calls"
  shows "\<forall>q \<in> set (params # updates stndrd thrshld params calls). ordered q"
proof -
  have "bracket_inv stndrd params"
    using assms(1,2) by (simp add: bracket_inv_def ordered_def initialised_def)
  then show ?thesis
    using bracket_inv_updates [OF _ assms(3,4), of params thrshld]
    by (auto simp: bracket_inv_def)
qed

theorem ordering_invariant_witness:
  "(0::real) \<le> 1000 \<and> initialised 1000 (fresh_t1 1000) \<and>
   valid_options [(''B'', 550), (''B'', 800), (''A'', 900)] \<and>
   offers_between 0 1000 [(''B'', 550), (''B'', 800), (''A'', 900)] \<and>
   map bracket_state (updates 1000 50 (fresh_t1 1000) [(''B'', 550), (''B'', 800), (''A'', 900)])
     = [(1000, 1000, 550, 0, None), (1000, 1000, 800, 550, None), (900, 1000, 800, 550, None)] \<and>
   list_all ordered
     (fresh_t1 1000 # updates 1000 50 (fresh_t1 1000) [(''B'', 550), (''B'', 800), (''A'', 900)])"
proof -
  have h: "(0::real) \<le> 1000" "initialised 1000 (fresh_t1 1000)"
    "valid_options [(''B'', 550), (''B'', 800), (''A'', 900)]"
    "offers_between 0 1000 [(''B'', 550), (''B'', 800), (''A'', 900)]"
    by (simp_all add: initialised_def valid_options_def offers_between_def fresh_t1_def)
  have "map bracket_state (updates 1000 50 (fresh_t1 1000) [(''B'', 550), (''B'', 800), (''A'', 900)])
     = [(1000, 1000, 550, 0, None), (1000, 1000, 800, 550, None), (900, 1000, 800, 550, None)]"
    by (simp add: bracket_state_def fresh_t1_def updateParameters_def)
  moreover have "list_all ordered
     (fresh_t1 1000 # updates 1000 50 (fresh_t1 1000) [(''B'', 550), (''B'', 800), (''A'', 900)])"
    using ordering_invariant [OF h, of 50] unfolding list_all_iff .
  ultimately show ?thesis using h by blast
qed

subsection \<open>The upper bound of the bracket\<close>

lemma upper_inv_step:
  assumes "upper_inv stndrd params" "response = ''A'' \<or> response = ''B''" "rwd \<le> tmax params"
  shows "upper_inv stndrd (fst (updateParameters response rwd params stndrd thrshld))"
  using assms unfolding upper_inv_def updateParameters_def by auto

lemma upper_inv_updates:
  assumes "upper_inv stndrd params" "valid_options calls"
    "offers_in_bracket stndrd thrshld params calls"
  shows "\<forall>q \<in> set (updates stndrd thrshld params calls). upper_inv stndrd q"
  using assms
proof (induction calls arbitrary: params)
  case Nil
  then show ?case by simp
next
  case (Cons c calls)
  obtain response rwd where c: "c = (response, rwd)" by (cases c)
  let ?q = "fst (updateParameters response rwd params stndrd thrshld)"
  from Cons.prems c have "upper_inv stndrd ?q"
    by (intro upper_inv_step) (simp_all add: valid_options_def)
  moreover from Cons.prems c have "valid_options calls" "offers_in_bracket stndrd thrshld ?q calls"
    by (simp_all add: valid_options_def)
  ultimately show ?case using Cons.IH [of ?q] c by (simp add: Let_def)
qed

text \<open>
  C10. For a parameter object initialised with \<open>tmin = tmax = standard\<close> and
  \<open>bmin = bmax = 0\<close>, if every call has response A or B and an offer within the bracket
  \<open>[bmax, tmax]\<close> the object has at that call, then \<open>tmax \<le> standard\<close> holds after every
  call, and with it \<open>tmin \<le> tmax\<close>, also after the branch of response B that resets \<open>tmax\<close>
  to the standard amount.
\<close>

theorem tmax_le_standard:
  assumes "initialised stndrd params" "valid_options calls"
    "offers_in_bracket stndrd thrshld params calls"
  shows "\<forall>q \<in> set (params # updates stndrd thrshld params calls).
           tmax q \<le> stndrd \<and> tmin q \<le> tmax q"
proof -
  have "upper_inv stndrd params"
    using assms(1) by (simp add: upper_inv_def initialised_def)
  then show ?thesis
    using upper_inv_updates [OF _ assms(2,3)]
    by (auto simp: upper_inv_def)
qed

theorem tmax_le_standard_witness:
  "initialised 1000 (fresh_t1 1000) \<and>
   valid_options [(''A'', 600), (''A'', 800), (''B'', 700)] \<and>
   offers_in_bracket 1000 50 (fresh_t1 1000) [(''A'', 600), (''A'', 800), (''B'', 700)] \<and>
   map bracket_state (updates 1000 50 (fresh_t1 1000) [(''A'', 600), (''A'', 800), (''B'', 700)])
     = [(600, 1000, 0, 0, None), (600, 800, 0, 0, None), (700, 1000, 0, 0, None)] \<and>
   list_all (\<lambda>q. tmax q \<le> 1000 \<and> tmin q \<le> tmax q)
     (fresh_t1 1000 # updates 1000 50 (fresh_t1 1000) [(''A'', 600), (''A'', 800), (''B'', 700)])"
proof -
  have h: "initialised 1000 (fresh_t1 1000)"
    "valid_options [(''A'', 600), (''A'', 800), (''B'', 700)]"
    "offers_in_bracket 1000 50 (fresh_t1 1000) [(''A'', 600), (''A'', 800), (''B'', 700)]"
    by (simp_all add: initialised_def valid_options_def fresh_t1_def updateParameters_def)
  have "map bracket_state (updates 1000 50 (fresh_t1 1000) [(''A'', 600), (''A'', 800), (''B'', 700)])
     = [(600, 1000, 0, 0, None), (600, 800, 0, 0, None), (700, 1000, 0, 0, None)]"
    by (simp add: bracket_state_def fresh_t1_def updateParameters_def)
  moreover have "list_all (\<lambda>q. tmax q \<le> 1000 \<and> tmin q \<le> tmax q)
     (fresh_t1 1000 # updates 1000 50 (fresh_t1 1000) [(''A'', 600), (''A'', 800), (''B'', 700)])"
    using tmax_le_standard [OF h] unfolding list_all_iff .
  ultimately show ?thesis using h by blast
qed

subsection \<open>The reward sampler\<close>

lemma Math_round_of_int: "Math_round (of_int k) = of_int k"
  unfolding Math_round_def by (simp add: floor_eq_iff)

lemma Math_round_between:
  assumes "of_int a \<le> x" "x \<le> of_int b"
  shows "of_int a \<le> Math_round x \<and> Math_round x \<le> of_int b"
proof -
  have "of_int a \<le> x + 1 / 2" using assms(1) by simp
  then have "a \<le> \<lfloor>x + 1 / 2\<rfloor>" by (simp only: le_floor_iff)
  moreover have "x + 1 / 2 < of_int (b + 1)" using assms(2) by simp
  then have "\<lfloor>x + 1 / 2\<rfloor> < b + 1" by (simp only: floor_less_iff)
  ultimately show ?thesis unfolding Math_round_def by simp
qed

lemma multiple_of_times: "stp \<noteq> 0 \<Longrightarrow> multiple_of stp (of_int k * stp)"
  by (simp add: multiple_of_def)

lemma multiple_of_zero: "multiple_of stp 0"
  by (simp add: multiple_of_def)

lemma getRewardValue_multiples:
  fixes a b :: int
  assumes stp: "stp \<noteq> 0"
    and t: "tmax params = of_int b * stp" and bm: "bmax params = of_int a * stp"
    and le: "bmax params \<le> tmax params" and u: "0 \<le> u" "u \<le> 1"
  shows "multiple_of stp (getRewardValue params stp u) \<and>
         bmax params \<le> getRewardValue params stp u \<and> getRewardValue params stp u \<le> tmax params"
proof -
  let ?x = "u * (of_int b - of_int a) + of_int a :: real"
  have g: "getRewardValue params stp u = Math_round ?x * stp"
    using stp by (simp add: getRewardValue_def Let_def t bm)
  have m: "multiple_of stp (getRewardValue params stp u)"
    unfolding g Math_round_def using stp by (rule multiple_of_times)
  show ?thesis
  proof (cases "0 < stp")
    case True
    with le t bm have ab: "(of_int a :: real) \<le> of_int b" by simp
    then have "0 \<le> u * (of_int b - of_int a :: real)" using u by simp
    moreover have "u * (of_int b - of_int a :: real) \<le> 1 * (of_int b - of_int a)"
      using u ab by (intro mult_right_mono) simp_all
    ultimately have "of_int a \<le> ?x" "?x \<le> of_int b" by simp_all
    then have "of_int a \<le> Math_round ?x \<and> Math_round ?x \<le> of_int b"
      by (rule Math_round_between)
    then show ?thesis using True m by (simp add: g t bm)
  next
    case False
    with stp have neg: "stp < 0" by simp
    with le t bm have ab: "(of_int b :: real) \<le> of_int a" by (simp add: mult_le_cancel_right)
    then have "u * (of_int b - of_int a :: real) \<le> 0" using u by (simp add: mult_le_0_iff)
    moreover have "1 * (of_int b - of_int a :: real) \<le> u * (of_int b - of_int a)"
      using u ab by (intro mult_right_mono_neg) simp_all
    ultimately have "of_int b \<le> ?x" "?x \<le> of_int a" by simp_all
    then have "of_int b \<le> Math_round ?x \<and> Math_round ?x \<le> of_int a"
      by (rule Math_round_between)
    then show ?thesis using neg m by (simp add: g t bm mult_le_cancel_right)
  qed
qed

lemma getRewardValue_point:
  assumes "multiple_of stp (tmax params)" "bmax params = tmax params"
  shows "getRewardValue params stp u = tmax params"
proof (cases "stp = 0")
  case True
  with assms(1) have "tmax params = 0" by (simp add: multiple_of_def)
  with True show ?thesis by (simp add: getRewardValue_def Let_def)
next
  case False
  define k where "k = \<lfloor>tmax params / stp\<rfloor>"
  have k: "of_int k * stp = tmax params"
    using assms(1) by (simp add: multiple_of_def k_def)
  with False have "tmax params / stp = of_int k"
    by (simp add: nonzero_divide_eq_eq)
  then have "getRewardValue params stp u = Math_round (of_int k) * stp"
    using assms(2) by (simp add: getRewardValue_def Let_def)
  with k show ?thesis by (simp only: Math_round_of_int)
qed

lemma getRewardValue_in_bracket:
  assumes "stp \<noteq> 0" "multiple_of stp (tmax params)" "multiple_of stp (bmax params)"
    "bmax params \<le> tmax params" "0 \<le> u" "u \<le> 1"
  shows "multiple_of stp (getRewardValue params stp u) \<and>
         bmax params \<le> getRewardValue params stp u \<and> getRewardValue params stp u \<le> tmax params"
proof -
  have "tmax params = of_int \<lfloor>tmax params / stp\<rfloor> * stp"
    "bmax params = of_int \<lfloor>bmax params / stp\<rfloor> * stp"
    using assms(2,3) by (simp_all add: multiple_of_def)
  from getRewardValue_multiples [OF assms(1) this assms(4-6)] show ?thesis .
qed

text \<open>
  C5. For a draw \<open>u\<close> in \<open>[0, 1]\<close>, \<^verbatim>\<open>getRewardValue\<close> returns
  \<open>round (u * (tmax / step - bmax / step) + bmax / step) * step\<close>. When \<open>tmax\<close> and \<open>bmax\<close>
  are multiples of a nonzero step and \<open>bmax \<le> tmax\<close>, the result is a multiple of the step
  within \<open>[bmax, tmax]\<close>, and when \<open>bmax = tmax\<close> it is that value for every draw. The
  arithmetic is exact.
\<close>

theorem getRewardValue_range:
  assumes "stp \<noteq> 0" "multiple_of stp (tmax params)" "multiple_of stp (bmax params)"
    "bmax params \<le> tmax params" "0 \<le> u" "u \<le> 1"
  shows "getRewardValue params stp u =
           Math_round (u * (tmax params / stp - bmax params / stp) + bmax params / stp) * stp \<and>
         multiple_of stp (getRewardValue params stp u) \<and>
         bmax params \<le> getRewardValue params stp u \<and>
         getRewardValue params stp u \<le> tmax params \<and>
         (bmax params = tmax params \<longrightarrow> getRewardValue params stp u = tmax params)"
  using getRewardValue_in_bracket [OF assms] getRewardValue_point [OF assms(2)]
  by (simp add: getRewardValue_def Let_def)

theorem getRewardValue_range_witness:
  "(50::real) \<noteq> 0 \<and> multiple_of 50 1000 \<and> multiple_of 50 550 \<and> (550::real) \<le> 1000 \<and>
   (0::real) \<le> 2 / 3 \<and> (2::real) / 3 \<le> 1 \<and>
   getRewardValue \<lparr>tmax = 1000, bmax = 550\<rparr> 50 (2 / 3) = 850 \<and>
   multiple_of 50 (getRewardValue \<lparr>tmax = 1000, bmax = 550\<rparr> 50 (2 / 3)) \<and>
   550 \<le> getRewardValue \<lparr>tmax = 1000, bmax = 550\<rparr> 50 (2 / 3) \<and>
   getRewardValue \<lparr>tmax = 1000, bmax = 550\<rparr> 50 (2 / 3) \<le> 1000 \<and>
   getRewardValue \<lparr>tmax = 800, bmax = 800\<rparr> 50 (2 / 3) = 800"
proof -
  have h: "(50::real) \<noteq> 0" "multiple_of 50 (tmax \<lparr>tmax = 1000, bmax = 550\<rparr>)"
    "multiple_of 50 (bmax \<lparr>tmax = 1000, bmax = 550\<rparr>)"
    "bmax \<lparr>tmax = 1000, bmax = 550\<rparr> \<le> tmax \<lparr>tmax = 1000, bmax = 550\<rparr>"
    "(0::real) \<le> 2 / 3" "(2::real) / 3 \<le> 1"
    by (simp_all add: multiple_of_def)
  have k: "(50::real) \<noteq> 0" "multiple_of 50 (tmax \<lparr>tmax = 800, bmax = 800\<rparr>)"
    "multiple_of 50 (bmax \<lparr>tmax = 800, bmax = 800\<rparr>)"
    "bmax \<lparr>tmax = 800, bmax = 800\<rparr> \<le> tmax \<lparr>tmax = 800, bmax = 800\<rparr>"
    by (simp_all add: multiple_of_def)
  have "getRewardValue \<lparr>tmax = 1000, bmax = 550\<rparr> 50 (2 / 3) = 850"
    by (simp add: getRewardValue_def Math_round_def)
  with h getRewardValue_range [OF h] getRewardValue_range [OF k h(5,6)] show ?thesis
    by simp
qed

subsection \<open>The width of the bracket under a consistent subject\<close>

lemma policy_inv_step:
  assumes "policy_inv stndrd v params"
    "bmax params \<le> rwd" "rwd \<le> tmax params"
    "response = ''A'' \<and> v \<le> rwd \<or> response = ''B'' \<and> rwd \<le> v"
  shows "policy_inv stndrd v (fst (updateParameters response rwd params stndrd thrshld)) \<and>
         width (fst (updateParameters response rwd params stndrd thrshld)) \<le> width params"
  using assms unfolding policy_inv_def updateParameters_def width_def by auto

lemma policy_inv_updates:
  assumes "policy_inv stndrd v params" "valid_options calls"
    "offers_in_bracket stndrd thrshld params calls" "consistent_policy v calls"
  shows "nonincreasing (map width (params # updates stndrd thrshld params calls))"
  using assms
proof (induction calls arbitrary: params)
  case Nil
  then show ?case by simp
next
  case (Cons c calls)
  obtain response rwd where c: "c = (response, rwd)" by (cases c)
  let ?q = "fst (updateParameters response rwd params stndrd thrshld)"
  from Cons.prems c have "policy_inv stndrd v ?q \<and> width ?q \<le> width params"
    by (intro policy_inv_step) (auto simp: valid_options_def consistent_policy_def)
  moreover from Cons.prems c have "valid_options calls"
    "offers_in_bracket stndrd thrshld ?q calls" "consistent_policy v calls"
    by (simp_all add: valid_options_def consistent_policy_def)
  ultimately show ?case using Cons.IH [of ?q] c by (simp add: Let_def)
qed

lemma multiples_inv_step:
  assumes "multiples_inv stp params" "multiple_of stp stndrd" "multiple_of stp rwd"
  shows "multiples_inv stp (fst (updateParameters response rwd params stndrd thrshld))"
  using assms multiple_of_zero [of stp] unfolding multiples_inv_def updateParameters_def by auto

lemma policy_answer:
  assumes "tie = ''A'' \<or> tie = ''B''"
  shows "policy v tie rwd = ''A'' \<and> v \<le> rwd \<or> policy v tie rwd = ''B'' \<and> rwd \<le> v"
  using assms unfolding policy_def by auto

lemma sampled_calls_admissible:
  assumes "stp \<noteq> 0" "multiple_of stp stndrd" "tie = ''A'' \<or> tie = ''B''"
    "bracket_inv stndrd params" "policy_inv stndrd v params" "multiples_inv stp params"
    "list_all (\<lambda>u. 0 \<le> u \<and> u \<le> 1) us"
  shows "valid_options (sampled_calls stndrd thrshld stp (policy v tie) params us) \<and>
         offers_in_bracket stndrd thrshld params
           (sampled_calls stndrd thrshld stp (policy v tie) params us) \<and>
         consistent_policy v (sampled_calls stndrd thrshld stp (policy v tie) params us)"
  using assms(4-7)
proof (induction us arbitrary: params)
  case Nil
  then show ?case by (simp add: valid_options_def consistent_policy_def)
next
  case (Cons u us)
  let ?r = "getRewardValue params stp u"
  let ?a = "policy v tie ?r"
  let ?q = "fst (updateParameters ?a ?r params stndrd thrshld)"
  from Cons.prems have u: "0 \<le> u" "u \<le> 1" and us: "list_all (\<lambda>u. 0 \<le> u \<and> u \<le> 1) us"
    by simp_all
  from Cons.prems have le: "bmax params \<le> tmax params" and b0: "0 \<le> bmax params"
    and ts: "tmax params \<le> stndrd"
    by (simp_all add: bracket_inv_def ordered_def)
  from Cons.prems have "multiple_of stp (tmax params)" "multiple_of stp (bmax params)"
    by (simp_all add: multiples_inv_def)
  from getRewardValue_in_bracket [OF assms(1) this le u]
  have r: "multiple_of stp ?r" "bmax params \<le> ?r" "?r \<le> tmax params" by simp_all
  have a: "?a = ''A'' \<and> v \<le> ?r \<or> ?a = ''B'' \<and> ?r \<le> v"
    using assms(3) by (rule policy_answer)
  then have a': "?a = ''A'' \<or> ?a = ''B''" by blast
  have "bracket_inv stndrd ?q"
    using Cons.prems(1) a' r(2,3) b0 ts by (intro bracket_inv_step) simp_all
  moreover have "policy_inv stndrd v ?q"
    using policy_inv_step [OF Cons.prems(2) r(2,3) a] by simp
  moreover have "multiples_inv stp ?q"
    using Cons.prems(3) assms(2) r(1) by (rule multiples_inv_step)
  ultimately have "valid_options (sampled_calls stndrd thrshld stp (policy v tie) ?q us) \<and>
         offers_in_bracket stndrd thrshld ?q
           (sampled_calls stndrd thrshld stp (policy v tie) ?q us) \<and>
         consistent_policy v (sampled_calls stndrd thrshld stp (policy v tie) ?q us)"
    using us by (rule Cons.IH)
  then show ?case using a a' r(2,3)
    by (auto simp: Let_def valid_options_def consistent_policy_def)
qed

lemma fresh_t1_fields:
  "tmax (fresh_t1 stndrd) = stndrd" "bmax (fresh_t1 stndrd) = 0"
  "tmin (fresh_t1 stndrd) = stndrd" "bmin (fresh_t1 stndrd) = 0" "ip (fresh_t1 stndrd) = None"
  by (simp_all add: fresh_t1_def)

lemma stalled_step:
  "getRewardValue (fresh_t1 1000) 50 (99 / 100) = 1000"
  "policy 500 ''A'' 1000 = ''A''"
  "fst (updateParameters ''A'' 1000 (fresh_t1 1000) 1000 50) = fresh_t1 1000"
  by (simp_all add: getRewardValue_def Math_round_def policy_def fresh_t1_def updateParameters_def)

lemma stalled_titration:
  "sampled_calls 1000 50 50 (policy 500 ''A'') (fresh_t1 1000) (replicate n (99 / 100))
     = replicate n (''A'', 1000) \<and>
   updates 1000 50 (fresh_t1 1000) (replicate n (''A'', 1000)) = replicate n (fresh_t1 1000)"
  by (induction n) (simp_all add: stalled_step Let_def)

text \<open>
  C8, as the claim states it, fails. With the shipped settings (standard 1000, step 50), a
  subject for whom the standard is worth 500 and draws of 0.99: every offer is 1000, every
  answer is A, and after 100 trials the width is still 1000; the same holds for every number
  of trials, so no bound in \<open>(tmax - bmax) / step\<close> exists. With standard 1030, which is not a
  multiple of the step 50, the draw 0.999 offers 1050 and answer A raises the width from 1030
  to 1050. With the negative standard -100 the draw 0.9 offers -100 and answer B raises the
  width from -100 to 0.
\<close>

theorem width_counterexample:
  "sampled_calls 1000 50 50 (policy 500 ''A'') (fresh_t1 1000) (replicate 100 (99 / 100))
     = replicate 100 (''A'', 1000) \<and>
   map width (updates 1000 50 (fresh_t1 1000) (replicate 100 (''A'', 1000)))
     = replicate 100 1000 \<and>
   \<not> (1000::real) \<le> 50 \<and>
   sampled_calls 1030 50 50 (policy 500 ''A'') (fresh_t1 1030) [999 / 1000] = [(''A'', 1050)] \<and>
   map width (fresh_t1 1030 # updates 1030 50 (fresh_t1 1030) [(''A'', 1050)]) = [1030, 1050] \<and>
   \<not> nonincreasing (map width (fresh_t1 1030 # updates 1030 50 (fresh_t1 1030) [(''A'', 1050)])) \<and>
   sampled_calls (- 100) 50 50 (policy 500 ''A'') (fresh_t1 (- 100)) [9 / 10] = [(''B'', - 100)] \<and>
   map width (fresh_t1 (- 100) # updates (- 100) 50 (fresh_t1 (- 100)) [(''B'', - 100)])
     = [- 100, 0]"
proof -
  have w: "width (fresh_t1 1000) = 1000" by (simp add: width_def fresh_t1_def)
  have a: "sampled_calls 1000 50 50 (policy 500 ''A'') (fresh_t1 1000) (replicate 100 (99 / 100))
     = replicate 100 (''A'', 1000)"
    using stalled_titration [of 100] by (rule conjunct1)
  have "updates 1000 50 (fresh_t1 1000) (replicate 100 (''A'', 1000))
     = replicate 100 (fresh_t1 1000)"
    using stalled_titration [of 100] by (rule conjunct2)
  then have b: "map width (updates 1000 50 (fresh_t1 1000) (replicate 100 (''A'', 1000)))
     = replicate 100 1000"
    by (simp only: map_replicate w)
  have c: "\<not> (1000::real) \<le> 50" by simp
  have d: "sampled_calls 1030 50 50 (policy 500 ''A'') (fresh_t1 1030) [999 / 1000]
     = [(''A'', 1050)]"
    by (simp add: getRewardValue_def Math_round_def policy_def fresh_t1_def)
  have e: "map width (fresh_t1 1030 # updates 1030 50 (fresh_t1 1030) [(''A'', 1050)])
     = [1030, 1050]"
    by (simp add: width_def fresh_t1_def updateParameters_def)
  have f: "\<not> nonincreasing
      (map width (fresh_t1 1030 # updates 1030 50 (fresh_t1 1030) [(''A'', 1050)]))"
    unfolding e by simp
  have g: "sampled_calls (- 100) 50 50 (policy 500 ''A'') (fresh_t1 (- 100)) [9 / 10]
     = [(''B'', - 100)]"
    by (simp add: getRewardValue_def Math_round_def policy_def fresh_t1_def)
  have h: "map width (fresh_t1 (- 100) # updates (- 100) 50 (fresh_t1 (- 100)) [(''B'', - 100)])
     = [- 100, 0]"
    by (simp add: width_def fresh_t1_def updateParameters_def)
  show ?thesis by (intro conjI; fact)
qed

text \<open>
  C8, amended. For a nonzero step, a standard amount that is not negative and is a multiple
  of the step, and a parameter object initialised with \<open>tmin = tmax = standard\<close> and
  \<open>bmin = bmax = 0\<close>: when every offer is drawn by \<^verbatim>\<open>getRewardValue\<close> from the current
  object with a draw in \<open>[0, 1]\<close> and the subject answers by a fixed policy that prefers the
  option of larger worth, the width \<open>tmax - bmax\<close> never increases from one call to the next.
  Nothing is claimed about the number of calls until the width is at most the step.
\<close>

theorem width_nonincreasing:
  assumes "stp \<noteq> 0" "0 \<le> stndrd" "multiple_of stp stndrd" "initialised stndrd params"
    "tie = ''A'' \<or> tie = ''B''" "list_all (\<lambda>u. 0 \<le> u \<and> u \<le> 1) us"
  shows "nonincreasing
           (map width
              (params # updates stndrd thrshld params
                          (sampled_calls stndrd thrshld stp (policy v tie) params us)))"
proof -
  have "bracket_inv stndrd params" "policy_inv stndrd v params" "multiples_inv stp params"
    using assms(2-4) multiple_of_zero [of stp]
    by (simp_all add: bracket_inv_def ordered_def policy_inv_def multiples_inv_def initialised_def)
  note inv = this
  have "valid_options (sampled_calls stndrd thrshld stp (policy v tie) params us) \<and>
        offers_in_bracket stndrd thrshld params
          (sampled_calls stndrd thrshld stp (policy v tie) params us) \<and>
        consistent_policy v (sampled_calls stndrd thrshld stp (policy v tie) params us)"
    by (rule sampled_calls_admissible [OF assms(1,3,5) inv assms(6)])
  with inv(2) show ?thesis by (intro policy_inv_updates) blast+
qed

theorem width_nonincreasing_witness:
  "(50::real) \<noteq> 0 \<and> (0::real) \<le> 1000 \<and> multiple_of 50 1000 \<and> initialised 1000 (fresh_t1 1000) \<and>
   list_all (\<lambda>u. 0 \<le> u \<and> u \<le> 1) [1 / 2, 3 / 10, 3 / 5 :: real] \<and>
   sampled_calls 1000 50 50 (policy 500 ''A'') (fresh_t1 1000) [1 / 2, 3 / 10, 3 / 5]
     = [(''A'', 500), (''B'', 300), (''A'', 600)] \<and>
   map width (fresh_t1 1000 #
              updates 1000 50 (fresh_t1 1000) [(''A'', 500), (''B'', 300), (''A'', 600)])
     = [1000, 1000, 1000, 600] \<and>
   nonincreasing
     (map width (fresh_t1 1000 #
                 updates 1000 50 (fresh_t1 1000)
                   (sampled_calls 1000 50 50 (policy 500 ''A'') (fresh_t1 1000)
                      [1 / 2, 3 / 10, 3 / 5])))"
proof -
  have h: "(50::real) \<noteq> 0" "(0::real) \<le> 1000" "multiple_of 50 1000"
    "initialised 1000 (fresh_t1 1000)" "''A'' = ''A'' \<or> ''A'' = ''B''"
    "list_all (\<lambda>u. 0 \<le> u \<and> u \<le> 1) [1 / 2, 3 / 10, 3 / 5 :: real]"
    by (simp_all add: multiple_of_def initialised_def fresh_t1_fields)
  define q1 where "q1 = (fresh_t1 1000)\<lparr>tmax := 1000, tmin := 500\<rparr>"
  define q2 where "q2 = q1\<lparr>bmax := 0, bmin := 300\<rparr>"
  have d: "getRewardValue (fresh_t1 1000) 50 (1 / 2) = 500"
    "getRewardValue q1 50 (3 / 10) = 300" "getRewardValue q2 50 (3 / 5) = 600"
    by (simp_all add: getRewardValue_def Math_round_def fresh_t1_fields q1_def q2_def)
  have a: "policy 500 ''A'' 500 = ''A''" "policy 500 ''A'' 300 = ''B''"
    "policy 500 ''A'' 600 = ''A''"
    by (simp_all add: policy_def)
  have u: "fst (updateParameters ''A'' 500 (fresh_t1 1000) 1000 50) = q1"
    "fst (updateParameters ''B'' 300 q1 1000 50) = q2"
    by (simp_all add: updateParameters_def fresh_t1_fields q1_def q2_def)
  have calls: "sampled_calls 1000 50 50 (policy 500 ''A'') (fresh_t1 1000) [1 / 2, 3 / 10, 3 / 5]
     = [(''A'', 500), (''B'', 300), (''A'', 600)]"
    by (simp only: sampled_calls.simps Let_def d a u)
  have widths: "map width (fresh_t1 1000 #
              updates 1000 50 (fresh_t1 1000) [(''A'', 500), (''B'', 300), (''A'', 600)])
     = [1000, 1000, 1000, 600]"
    by (simp add: u) (simp add: width_def fresh_t1_fields updateParameters_def q1_def q2_def)
  note mono = width_nonincreasing [OF h, of 50 500]
  show ?thesis by (intro conjI; fact)
qed

subsection \<open>The distractor trial\<close>

lemma update_keeps_projection:
  assumes "map_of al k = Some v" "f v' = f v"
  shows "map (\<lambda>(k, params). (k, f params)) (AList.update k v' al)
           = map (\<lambda>(k, params). (k, f params)) al"
  using assms by (induction al) (auto split: if_splits)

text \<open>
  C9. When \<^verbatim>\<open>handleOnDistractorStart\<close> returns, every entry of \<^verbatim>\<open>settings.parameters\<close>
  has the \<open>tmin\<close>, \<open>tmax\<close>, \<open>bmin\<close>, \<open>bmax\<close> and \<open>ip\<close> it had before. The only entry that
  changes is \<^verbatim>\<open>d0\<close>, whose counter is incremented; the reward is drawn from
  \<open>[0, standard]\<close>; the session counter and the number of indifference points are unchanged.
\<close>

theorem handleOnDistractorStart_frame:
  assumes "handleOnDistractorStart s lastTrialName pick u = Inr s'"
  shows "map (\<lambda>(k, params). (k, bracket_state params)) (parameters s')
           = map (\<lambda>(k, params). (k, bracket_state params)) (parameters s) \<and>
         (\<exists>d0. map_of (parameters s) ''d0'' = Some d0 \<and>
               parameters s' =
                 AList.update ''d0'' (d0\<lparr>trial_count := trial_count d0 + 1\<rparr>) (parameters s)) \<and>
         reword (variables s') = getRewardValue \<lparr>tmax = standard s, bmax = 0\<rparr> (step s) u \<and>
         count (variables s') = count (variables s) \<and>
         number_of_ips (variables s') = number_of_ips (variables s)"
proof -
  from assms obtain d0 shown where d0: "map_of (parameters s) ''d0'' = Some d0"
    and s': "s' = s\<lparr>parameters :=
                      AList.update ''d0'' (d0\<lparr>trial_count := trial_count d0 + 1\<rparr>) (parameters s),
                    variables := (variables s)
                      \<lparr>reword := getRewardValue \<lparr>tmax = standard s, bmax = 0\<rparr> (step s) u,
                       stimulus := shown\<rparr>\<rparr>"
    by (auto simp: handleOnDistractorStart_def Let_def split: option.splits if_splits sum.splits)
  have "bracket_state (d0\<lparr>trial_count := trial_count d0 + 1\<rparr>) = bracket_state d0"
    by (simp add: bracket_state_def)
  with d0 have "map (\<lambda>(k, params). (k, bracket_state params))
                  (AList.update ''d0'' (d0\<lparr>trial_count := trial_count d0 + 1\<rparr>) (parameters s))
                = map (\<lambda>(k, params). (k, bracket_state params)) (parameters s)"
    by (rule update_keeps_projection)
  with d0 s' show ?thesis by simp
qed

theorem handleOnDistractorStart_frame_witness:
  "(case handleOnDistractorStart (prepareSettings getUserDefinedSettings) ''t1'' 0 (1 / 2) of
      Inl e \<Rightarrow> False
    | Inr s' \<Rightarrow>
        map (\<lambda>(k, params). (k, bracket_state params)) (parameters s')
          = map (\<lambda>(k, params). (k, bracket_state params))
              (parameters (prepareSettings getUserDefinedSettings)) \<and>
        map (\<lambda>(k, params). (k, trial_count params)) (parameters s')
          = [(''t1'', 0), (''t2'', 0), (''t3'', 0), (''t4'', 0), (''t5'', 0),
             (''p1'', 0), (''p2'', 0), (''p3'', 0), (''p4'', 0), (''p5'', 0), (''d0'', 1)] \<and>
        reword (variables s') = 500 \<and>
        stimulus (variables s') = Some (ProbabilityDelayText 500 1000 (Some 100)))"
proof -
  obtain s' where s': "handleOnDistractorStart (prepareSettings getUserDefinedSettings) ''t1'' 0 (1 / 2)
      = Inr s'"
    and c: "map (\<lambda>(k, params). (k, trial_count params)) (parameters s')
          = [(''t1'', 0), (''t2'', 0), (''t3'', 0), (''t4'', 0), (''t5'', 0),
             (''p1'', 0), (''p2'', 0), (''p3'', 0), (''p4'', 0), (''p5'', 0), (''d0'', 1)]"
    and r: "reword (variables s') = 500"
    and t: "stimulus (variables s') = Some (ProbabilityDelayText 500 1000 (Some 100))"
    by (simp add: handleOnDistractorStart_def getStimulousString_def prepareSettings_def
        getUserDefinedSettings_def trialParameters_def enumerate_eq_zip upt_rec String_nat_digit
        digit_def Let_def getRewardValue_def Math_round_def)
  from handleOnDistractorStart_frame [OF s'] c r t show ?thesis
    by (simp only: s' sum.case simp_thms)
qed

subsection \<open>When the distractor trial runs\<close>

lemma handleOnDelaiedDiscountingStart_count:
  assumes "handleOnDelaiedDiscountingStart s trialName u = Inr s1"
  shows "count (variables s1) = count (variables s) + 1 \<and> distractorStart s1 = distractorStart s"
  using assms
  by (auto simp: handleOnDelaiedDiscountingStart_def Let_def split: option.splits sum.splits)

lemma handleOnDelaiedDiscountingFinish_count:
  assumes "handleOnDelaiedDiscountingFinish s1 data_response trialName = Inr (s2, logged)"
  shows "count (variables s2) = count (variables s1) \<and> distractorStart s2 = distractorStart s1"
  using assms
  by (auto simp: handleOnDelaiedDiscountingFinish_def Let_def
      split: option.splits prod.splits if_splits)

lemma handleOnDistractorStart_count:
  assumes "handleOnDistractorStart s2 trialName pick u = Inr s3"
  shows "count (variables s3) = count (variables s2) \<and> distractorStart s3 = distractorStart s2"
  using assms
  by (auto simp: handleOnDistractorStart_def Let_def split: option.splits if_splits sum.splits)

lemma run_entry_cases:
  assumes "run_entry s trialName u data_response pick u' = Inr (s', kinds, logged)"
  shows "(\<exists>params. map_of (parameters s) trialName = Some params \<and> ip params \<noteq> None) \<and>
           kinds = [] \<and> s' = s
         \<or> (\<exists>params. map_of (parameters s) trialName = Some params \<and> ip params = None) \<and>
           count (variables s') = count (variables s) + 1 \<and>
           distractorStart s' = distractorStart s \<and>
           kinds = (if distractorStart s \<le> count (variables s) + 1
                    then [Delaied_discounting_trial, Distractor_trial]
                    else [Delaied_discounting_trial])"
proof (cases "map_of (parameters s) trialName")
  case None
  with assms show ?thesis by (simp add: run_entry_def skipIfIpDetermined_conditional_def)
next
  case (Some params)
  show ?thesis
  proof (cases "ip params = None")
    case False
    with Some assms show ?thesis
      by (auto simp: run_entry_def skipIfIpDetermined_conditional_def)
  next
    case True
    with Some have skip: "skipIfIpDetermined_conditional s trialName = Inr True"
      by (simp add: skipIfIpDetermined_conditional_def)
    from assms skip obtain s1 where
      s1: "handleOnDelaiedDiscountingStart s trialName u = Inr s1"
      by (cases "handleOnDelaiedDiscountingStart s trialName u") (simp_all add: run_entry_def)
    from assms skip s1 obtain b where
      b: "handleOnDelaiedDiscountingFinish s1 data_response trialName = Inr b"
      by (cases "handleOnDelaiedDiscountingFinish s1 data_response trialName")
        (simp_all add: run_entry_def)
    obtain s2 lg where "b = (s2, lg)" by (cases b)
    with b have s2: "handleOnDelaiedDiscountingFinish s1 data_response trialName = Inr (s2, lg)"
      by simp
    from assms skip s1 s2 have
      r: "(if distractorTrial_conditional s2 then
             (case handleOnDistractorStart s2 trialName pick u' of
                Inl e \<Rightarrow> Inl e
              | Inr s3 \<Rightarrow> Inr (s3, [Delaied_discounting_trial, Distractor_trial], lg))
           else Inr (s2, [Delaied_discounting_trial], lg)) = Inr (s', kinds, logged)"
      by (simp add: run_entry_def)
    from handleOnDelaiedDiscountingStart_count [OF s1] handleOnDelaiedDiscountingFinish_count [OF s2]
    have c: "count (variables s2) = count (variables s) + 1"
      "distractorStart s2 = distractorStart s" by simp_all
    show ?thesis
    proof (cases "distractorTrial_conditional s2")
      case False
      with r c Some True show ?thesis by (auto simp: distractorTrial_conditional_def)
    next
      case yes: True
      with r obtain s3 where s3: "handleOnDistractorStart s2 trialName pick u' = Inr s3"
        and e: "s' = s3" "kinds = [Delaied_discounting_trial, Distractor_trial]"
        by (cases "handleOnDistractorStart s2 trialName pick u'") simp_all
      from handleOnDistractorStart_count [OF s3] c e yes Some True show ?thesis
        by (auto simp: distractorTrial_conditional_def)
    qed
  qed
qed

text \<open>
  C4, as the claim states it, fails: \<^verbatim>\<open>distractorTrial\<close> tests only
  \<^verbatim>\<open>settings.distractorStart <= settings.variables.count\<close>. With the shipped settings and the
  session counter at 70, the next titration trial raises the counter to 71, which is odd,
  and the distractor trial runs after it. With \<^verbatim>\<open>distractorStart\<close> set to 1 the same
  happens at the first trial of a session, whose counter is 1.
\<close>

theorem distractor_counterexample:
  "map_sum id (\<lambda>(s', kinds, logged). (count (variables s'), distractorStart s', kinds))
     (run_entry (default_settings_at 70) ''t1'' (1 / 2) (Some 0) 0 (1 / 2))
     = Inr (71, 70, [Delaied_discounting_trial, Distractor_trial]) \<and>
   odd (71::nat) \<and>
   map_sum id (\<lambda>(s', kinds, logged). (count (variables s'), distractorStart s', kinds))
     (run_entry
        (prepareSettings
           ([0, 2, 30, 180, 365], [100, 90, 75, 50, 25],
            \<lparr>posttrialDelay = 500, distractorStart = 1, standard = 1000, step = 50,
             maximumTrialCount = 30\<rparr>))
        ''t1'' (1 / 2) (Some 0) 0 (1 / 2))
     = Inr (1, 1, [Delaied_discounting_trial, Distractor_trial]) \<and>
   odd (1::nat)"
  by (simp add: run_entry_def skipIfIpDetermined_conditional_def distractorTrial_conditional_def
      handleOnDelaiedDiscountingStart_def handleOnDelaiedDiscountingFinish_def
      handleOnDistractorStart_def getStimulousString_def response_label_def
      default_settings_at_def prepareSettings_def getUserDefinedSettings_def trialParameters_def
      enumerate_eq_zip upt_rec String_nat_digit digit_def Let_def getRewardValue_def
      Math_round_def updateParameters_def)

text \<open>
  C4, amended. An entry of the trial sequence whose condition has no indifference point yet
  runs its titration trial, which increments \<^verbatim>\<open>settings.variables.count\<close>; the distractor
  trial runs immediately after it if and only if the incremented counter is at least
  \<^verbatim>\<open>distractorStart\<close>, for even and odd counters alike. An entry whose condition has its
  indifference point runs neither trial.
\<close>

theorem run_entry_distractor:
  assumes "run_entry s trialName u data_response pick u' = Inr (s', kinds, logged)"
  shows "(kinds = [] \<or> kinds = [Delaied_discounting_trial] \<or>
          kinds = [Delaied_discounting_trial, Distractor_trial]) \<and>
         (Delaied_discounting_trial \<in> set kinds \<longleftrightarrow>
            (\<exists>params. map_of (parameters s) trialName = Some params \<and> ip params = None)) \<and>
         (Distractor_trial \<in> set kinds \<longleftrightarrow>
            Delaied_discounting_trial \<in> set kinds \<and> distractorStart s \<le> count (variables s')) \<and>
         (Delaied_discounting_trial \<in> set kinds \<longrightarrow>
            count (variables s') = count (variables s) + 1)"
  using run_entry_cases [OF assms] by (auto split: if_splits)

theorem run_entry_distractor_witness:
  "(case run_entry (default_settings_at 68) ''t1'' (1 / 2) (Some 0) 0 (1 / 2) of
      Inl e \<Rightarrow> False
    | Inr (s', kinds, logged) \<Rightarrow>
        kinds = [Delaied_discounting_trial] \<and> count (variables s') = 69) \<and>
   (case run_entry (default_settings_at 69) ''t1'' (1 / 2) (Some 0) 0 (1 / 2) of
      Inl e \<Rightarrow> False
    | Inr (s', kinds, logged) \<Rightarrow>
        kinds = [Delaied_discounting_trial, Distractor_trial] \<and> count (variables s') = 70)"
proof -
  have ok: "\<exists>r. run_entry (default_settings_at n) ''t1'' (1 / 2) (Some 0) 0 (1 / 2) = Inr r" for n
    by (simp add: run_entry_def skipIfIpDetermined_conditional_def distractorTrial_conditional_def
      handleOnDelaiedDiscountingStart_def handleOnDelaiedDiscountingFinish_def
      handleOnDistractorStart_def getStimulousString_def response_label_def
      default_settings_at_def prepareSettings_def getUserDefinedSettings_def trialParameters_def
      enumerate_eq_zip upt_rec String_nat_digit digit_def Let_def getRewardValue_def
      Math_round_def updateParameters_def)
  have f: "map_of (parameters (default_settings_at n)) ''t1'' = Some (fresh_t1 1000)"
    "count (variables (default_settings_at n)) = n"
    "distractorStart (default_settings_at n) = 70" for n
    by (simp_all add: default_settings_at_def prepareSettings_t1)
      (simp_all add: prepareSettings_def getUserDefinedSettings_def)
  from ok [of 68] obtain s' kinds logged where
    a: "run_entry (default_settings_at 68) ''t1'' (1 / 2) (Some 0) 0 (1 / 2) = Inr (s', kinds, logged)"
    by (metis prod_cases3)
  from ok [of 69] obtain s'' kinds' logged' where
    b: "run_entry (default_settings_at 69) ''t1'' (1 / 2) (Some 0) 0 (1 / 2) = Inr (s'', kinds', logged')"
    by (metis prod_cases3)
  from run_entry_distractor [OF a] have "kinds = [Delaied_discounting_trial] \<and> count (variables s') = 69"
    by (auto simp: f fresh_t1_fields)
  moreover from run_entry_distractor [OF b]
  have "kinds' = [Delaied_discounting_trial, Distractor_trial] \<and> count (variables s'') = 70"
    by (auto simp: f fresh_t1_fields)
  ultimately show ?thesis by (simp add: a b)
qed

subsection \<open>Responses of the button plugin\<close>

lemma String_nat_digits: "set (String_nat n) \<subseteq> set ''0123456789''"
proof (induction n rule: String_nat.induct)
  case (1 n)
  have d: "digit k \<in> set ''0123456789''" if "k < 10" for k
    unfolding digit_def using that by (intro nth_mem) simp
  show ?case
  proof (cases "n < 10")
    case True
    then show ?thesis using d [of n] by (simp add: String_nat_digit)
  next
    case False
    have "n mod 10 < 10" by simp
    from d [OF this] 1 [OF False] False show ?thesis
      by (subst String_nat.simps) simp
  qed
qed

lemma response_label_valid:
  "response_label r = ''A'' \<longleftrightarrow> r = Some 0"
  "response_label r = ''B'' \<longleftrightarrow> r = Some 1"
proof -
  have "String_response r \<noteq> ''A'' \<and> String_response r \<noteq> ''B''"
  proof (cases r)
    case None
    then show ?thesis by (simp add: String_response_def)
  next
    case (Some n)
    have "CHR ''A'' \<notin> set (String_nat n)" "CHR ''B'' \<notin> set (String_nat n)"
      using String_nat_digits [of n] by auto
    then have "String_nat n \<noteq> ''A''" "String_nat n \<noteq> ''B''" by auto
    with Some show ?thesis by (simp add: String_response_def)
  qed
  then show "response_label r = ''A'' \<longleftrightarrow> r = Some 0" "response_label r = ''B'' \<longleftrightarrow> r = Some 1"
    by (auto simp: response_label_def)
qed

text \<open>
  A response other than the two buttons leaves the settings as they are when the condition
  has no indifference point, and the diagnostic is logged.
\<close>

lemma handleOnDelaiedDiscountingFinish_invalid:
  assumes "data_response \<noteq> Some 0" "data_response \<noteq> Some 1"
    "map_of (parameters s) data_tiral_name = Some params" "ip params = None"
  shows "handleOnDelaiedDiscountingFinish s data_response data_tiral_name
           = Inr (s, [InvalidResponse (String_response data_response)])"
proof -
  have "response_label data_response \<noteq> ''A''" "response_label data_response \<noteq> ''B''"
    using assms(1,2) by (simp_all add: response_label_valid)
  then have "updateParameters (response_label data_response) (reword (variables s)) params
               (standard s) (threshold s)
             = (params, [InvalidResponse (response_label data_response)])"
    by (simp add: updateParameters_def)
  moreover have "response_label data_response = String_response data_response"
    using assms(1,2) by (simp add: response_label_def)
  ultimately show ?thesis
    using assms(3,4) by (simp add: handleOnDelaiedDiscountingFinish_def AList.update_triv)
qed

subsection \<open>The input of the trial sequence\<close>

text \<open>
  What \<^verbatim>\<open>prepareTrialSequence\<close> hands to the randomisation functions of the library: the
  names of all entries but \<^verbatim>\<open>d0\<close>, each to be repeated \<^verbatim>\<open>maximumTrialCount\<close> times. The
  order of the result is the library's.
\<close>

lemma trialNames_without_d0: "''d0'' \<notin> set (trialNames s)"
  by (simp add: trialNames_def)

lemma trialNames_default:
  "trialNames (prepareSettings getUserDefinedSettings)
     = [''t1'', ''t2'', ''t3'', ''t4'', ''t5'', ''p1'', ''p2'', ''p3'', ''p4'', ''p5'']"
  "maximumTrialCount (prepareSettings getUserDefinedSettings) = 30"
  by (simp_all add: trialNames_def prepareSettings_keys)
    (simp add: prepareSettings_def getUserDefinedSettings_def)

lemma count_list_distinct: "distinct xs \<Longrightarrow> count_list xs x = (if x \<in> set xs then 1 else 0)"
  by (induction xs) auto

lemma prepareTrialSequence_counts:
  assumes "\<And>xs n x. count_list (repeat xs n) x = n * count_list xs x"
    and "\<And>xs eq x. count_list (shuffleNoRepeats xs eq) x = count_list xs x"
    and "distinct (map fst (parameters s))"
  shows "count_list (prepareTrialSequence repeat shuffleNoRepeats s) key
           = (if key \<in> set (trialNames s) then maximumTrialCount s else 0)"
proof -
  have "distinct (trialNames s)" using assms(3) by (simp add: trialNames_def)
  then show ?thesis
    by (simp add: prepareTrialSequence_def Let_def assms(1,2) count_list_distinct)
qed

end
